theory Spec2Isabelle
  imports Main "HOL-Library.Word"
begin

unbundle bit_operations_syntax

section \<open>usb2sock: a shallow embedding of \<^verbatim>\<open>src/usb2sock/usb2sock.c\<close>\<close>

text \<open>
  The program is single threaded. Everything it does to the outside world is a call into
  the socket layer or into libusb. The embedding keeps the program's globals in a record,
  logs every outside call in a chronological \<open>trace\<close>, and takes the answers of the
  outside world from an environment that is asked with the trace so far (so an answer may
  depend on everything that happened before, and on nothing else).
\<close>

subsection \<open>Constants\<close>

type_synonym c_int = "32 word"
type_synonym byte = "8 word"

text \<open>The anonymous \<^verbatim>\<open>enum\<close> of the source.\<close>

definition GOGGLES_WANT_CFG :: int where "GOGGLES_WANT_CFG = 1"
definition VENDOR_ID_DJI :: int where "VENDOR_ID_DJI = 0x2ca3"
definition DEVICE_ID_GOGGLES :: int where "DEVICE_ID_GOGGLES = 0x001f"
definition WAIT_FOR_HOTPLUG :: int where "WAIT_FOR_HOTPLUG = 0xca0"

text \<open>
  Modelled from the spec: the classified results of the hardware boundary
  (success, timeout, I/O error, no-device, not-found, other). The header
  \<^verbatim>\<open>libusb.h\<close> is not part of the sources; the numbers are those of its
  \<^verbatim>\<open>enum libusb_error\<close>, where success is 0 and every error is negative.
\<close>

definition LIBUSB_ERROR_IO :: int where "LIBUSB_ERROR_IO = - 1"
definition LIBUSB_ERROR_NO_DEVICE :: int where "LIBUSB_ERROR_NO_DEVICE = - 4"
definition LIBUSB_ERROR_NOT_FOUND :: int where "LIBUSB_ERROR_NOT_FOUND = - 5"
definition LIBUSB_ERROR_TIMEOUT :: int where "LIBUSB_ERROR_TIMEOUT = - 7"
definition LIBUSB_ENDPOINT_IN :: byte where "LIBUSB_ENDPOINT_IN = 0x80"

text \<open>
  Modelled from the spec: the "would block" indication of a non-blocking socket.
  \<^verbatim>\<open>errno.h\<close> is a system header; on the BSD family the program is written for
  (it uses \<^verbatim>\<open>SO_NOSIGPIPE\<close>) both names stand for 35.
\<close>

definition EAGAIN :: int where "EAGAIN = 35"
definition EWOULDBLOCK :: int where "EWOULDBLOCK = 35"

text \<open>\<^verbatim>\<open>sizeof(clientlist) / sizeof(clientlist[0])\<close> and \<^verbatim>\<open>sizeof(struct sockaddr_in)\<close>.\<close>

definition CLIENTLIST_LEN :: nat where "CLIENTLIST_LEN = 1024"
definition SIZEOF_SOCKADDR_IN :: nat where "SIZEOF_SOCKADDR_IN = 16"

subsection \<open>The outside world\<close>

type_synonym c_unsigned = "32 word"

datatype event =
    SysAccept
  | SysFcntl c_int
  | SysClose c_int
  | SysRead c_int
  | SysWrite c_int "byte list"
  | Printf string
  | Usleep int
  | UsbGetDeviceList
  | UsbOpen
  | UsbClose
  | UsbSetConfiguration int
  | UsbClaimInterface int
  | UsbBulkOut int
  | UsbBulkIn int
  | UsbExit

text \<open>
  \<open>read\<close> and \<open>write\<close> return \<open>-1\<close> with an \<open>errno\<close>, or a byte count.
  \<open>accept\<close> returns \<open>-1\<close> with an \<open>errno\<close>, or a descriptor together with
  whether \<open>inet_ntop\<close> could print the address, and the address length it filled in.
  \<open>SysWrite fd bs\<close> logs a \<open>write\<close> on \<open>fd\<close> and the bytes the socket took
  (none when the call failed). \<open>Printf\<close> logs a line of output by the fixed words
  of its format string, without the values printed.
\<close>

datatype io_result = Failed int | Returned nat

datatype accept_result = AcceptFailed int | Accepted c_int bool nat

record endpoint_descriptor =
  bEndpointAddress :: byte

record interface_descriptor =
  bInterfaceClass :: byte
  bInterfaceSubClass :: byte
  endpoint :: "endpoint_descriptor list"

text \<open>
  A \<^verbatim>\<open>libusb_interface\<close> is its array of alternate settings, a configuration
  descriptor its array of interfaces; \<open>num_altsetting\<close>, \<open>bNumInterfaces\<close> and
  \<open>bNumEndpoints\<close> are the lengths.
\<close>

type_synonym libusb_interface = "interface_descriptor list"
type_synonym config_descriptor = "libusb_interface list"

record device_descriptor =
  idVendor :: int
  idProduct :: int
  bNumConfigurations :: int

text \<open>
  A device as \<open>start_with_a_device\<close> meets it: the answer of each libusb call the
  function makes on it, in the order of the calls. A bulk transfer is asked with its
  endpoint; a bulk read answers with its result code and the bytes it transferred.
\<close>

record usb_device =
  get_device_descriptor :: "int \<times> device_descriptor"
  libusb_open :: int
  get_configuration :: "int \<times> int"
  set_configuration :: int
  get_config_descriptor :: "int \<times> config_descriptor"
  claim_interface :: "int \<Rightarrow> int"
  get_configuration_again :: "int \<times> int"
  bulk_out :: "int \<Rightarrow> int \<times> int"
  bulk_in :: "event list \<Rightarrow> int \<Rightarrow> int \<times> byte list"

datatype device_list = ListFailed int | Devices "usb_device list"

text \<open>
  The environment. The first seven fields are the calls \<open>start_usb2sock\<close> makes once,
  before its loop; the others are asked with the trace so far.
\<close>

record os =
  libusb_init_context :: int
  sys_socket :: int
  sys_setsockopt_reuseaddr :: int
  sys_setsockopt_nosigpipe :: int
  sys_bind :: int
  sys_listen :: int
  sys_fcntl_listener :: int
  sys_accept :: "event list \<Rightarrow> accept_result"
  sys_fcntl :: "event list \<Rightarrow> c_int \<Rightarrow> int"
  sys_read :: "event list \<Rightarrow> c_int \<Rightarrow> io_result"
  sys_write :: "event list \<Rightarrow> c_int \<Rightarrow> int \<Rightarrow> io_result"
  get_device_list :: "event list \<Rightarrow> device_list"

subsection \<open>The globals\<close>

text \<open>
  \<^verbatim>\<open>int clientlist[1024]; unsigned clientlist_use; unsigned char buf[128*1024];\<close>
  The arrays are functions of the index; the program guards every index it uses.
\<close>

record world =
  clientlist :: "nat \<Rightarrow> c_int"
  clientlist_use :: c_unsigned
  buf :: "nat \<Rightarrow> byte"
  trace :: "event list"

definition emit :: "event \<Rightarrow> world \<Rightarrow> world" where
  "emit e w = w\<lparr>trace := trace w @ [e]\<rparr>"

subsection \<open>Memory under \<open>clientlist\<close>\<close>

text \<open>
  \<open>memmove\<close> counts bytes, so \<open>close_client\<close> needs the bytes of the array. An
  \<^verbatim>\<open>int\<close> is four bytes, least significant first (the program's platforms are
  little endian).
\<close>

definition int_byte :: "c_int \<Rightarrow> nat \<Rightarrow> byte" where
  "int_byte x k = ucast (drop_bit (8 * k) x)"

definition int_of_bytes :: "byte \<Rightarrow> byte \<Rightarrow> byte \<Rightarrow> byte \<Rightarrow> c_int" where
  "int_of_bytes b0 b1 b2 b3 =
     ucast b0 OR push_bit 8 (ucast b1) OR push_bit 16 (ucast b2) OR push_bit 24 (ucast b3)"

definition array_bytes :: "(nat \<Rightarrow> c_int) \<Rightarrow> nat \<Rightarrow> byte" where
  "array_bytes a p = int_byte (a (p div 4)) (p mod 4)"

definition bytes_array :: "(nat \<Rightarrow> byte) \<Rightarrow> nat \<Rightarrow> c_int" where
  "bytes_array m j = int_of_bytes (m (4 * j)) (m (4 * j + 1)) (m (4 * j + 2)) (m (4 * j + 3))"

text \<open>\<open>memmove m dst src n\<close>: the \<open>n\<close> bytes at \<open>src\<close>, as they were, now also at \<open>dst\<close>.\<close>

definition memmove :: "(nat \<Rightarrow> byte) \<Rightarrow> nat \<Rightarrow> nat \<Rightarrow> nat \<Rightarrow> nat \<Rightarrow> byte" where
  "memmove m dst src n = (\<lambda>p. if dst \<le> p \<and> p < dst + n then m (src + (p - dst)) else m p)"

subsection \<open>Client registry and socket fan-out\<close>

text \<open>
  \<^verbatim>\<open>close(clientlist[i]); clientlist_use--;
  memmove(&clientlist[i], &clientlist[i + 1], clientlist_use - i);\<close>
\<close>

definition close_client :: "c_unsigned \<Rightarrow> world \<Rightarrow> world" where
  "close_client i w =
     (let w1 = emit (SysClose (clientlist w (unat i))) w;
          use = clientlist_use w1 - 1;
          m = memmove (array_bytes (clientlist w1)) (4 * unat i) (4 * (unat i + 1)) (unat (use - i))
      in w1\<lparr>clientlist := bytes_array m, clientlist_use := use\<rparr>)"

definition accept_any_connection :: "os \<Rightarrow> world \<Rightarrow> world" where
  "accept_any_connection env w =
     (let w1 = emit SysAccept w in
      case sys_accept env (trace w) of
        AcceptFailed r \<Rightarrow>
          if r = EWOULDBLOCK \<or> r = EAGAIN then w1
          else emit (Printf ''accept tcp conn failed'') w1
      | Accepted clientfd ntop_ok saddrlen \<Rightarrow>
          let w2 = (if \<not> ntop_ok then emit (Printf ''inet_ntop client failed'') w1 else w1) in
          if saddrlen \<noteq> SIZEOF_SOCKADDR_IN then emit (Printf ''accepted wrong size'') w2
          else if unat (clientlist_use w2) \<ge> CLIENTLIST_LEN then
            emit (SysClose clientfd) (emit (Printf ''too many clients'') w2)
          else
            let w3 = emit (SysFcntl clientfd) w2;
                w4 = (if sys_fcntl env (trace w2) clientfd \<noteq> 0
                      then emit (SysClose clientfd) (emit (Printf ''O_NONBLOCK client failed'') w3)
                      else w3);
                w5 = emit (Printf ''client'') w4
            in w5\<lparr>clientlist := (clientlist w5)(unat (clientlist_use w5) := clientfd),
                  clientlist_use := clientlist_use w5 + 1\<rparr>)"

text \<open>
  The loop of \<open>recv_and_discard\<close>, from index \<open>i\<close>. A read that returns data leaves
  \<open>i\<close> and the registry as they are, so a peer that never stops sending keeps the loop
  running: the result is \<open>None\<close> when the loop does not end.
\<close>

partial_function (option) recv_and_discard_from :: "os \<Rightarrow> c_unsigned \<Rightarrow> world \<Rightarrow> world option" where
  "recv_and_discard_from env i w =
     (if i < clientlist_use w then
        (let fd = clientlist w (unat i); w1 = emit (SysRead fd) w in
         case sys_read env (trace w) fd of
           Failed r \<Rightarrow>
             if r = EWOULDBLOCK \<or> r = EAGAIN then recv_and_discard_from env (i + 1) w1
             else recv_and_discard_from env i (close_client i w1)
         | Returned n \<Rightarrow>
             if n = 0 then recv_and_discard_from env i (close_client i w1)
             else recv_and_discard_from env i w1)
      else Some w)"

declare recv_and_discard_from.simps [code]

definition recv_and_discard :: "os \<Rightarrow> world \<Rightarrow> world option" where
  "recv_and_discard env w = recv_and_discard_from env 0 w"

text \<open>
  The loop of \<open>send_to_socket\<close>, from index \<open>i\<close> and offset \<open>ofs\<close>. Every pass
  either moves to the next index, or removes an entry, or moves the offset towards
  \<open>buflen\<close>: the loop always ends.
\<close>

function send_to_socket_from :: "os \<Rightarrow> int \<Rightarrow> c_unsigned \<Rightarrow> int \<Rightarrow> world \<Rightarrow> world" where
  "send_to_socket_from env buflen i ofs w =
     (if i < clientlist_use w then
        (let fd = clientlist w (unat i) in
         case sys_write env (trace w) fd (buflen - ofs) of
           Failed r \<Rightarrow>
             let w1 = emit (SysWrite fd []) w in
             if r \<noteq> EWOULDBLOCK \<and> r \<noteq> EAGAIN
             then send_to_socket_from env buflen i 0 (close_client i w1)
             else send_to_socket_from env buflen (i + 1) 0 w1
         | Returned n \<Rightarrow>
             let w1 = emit (SysWrite fd (map (buf w) [nat ofs ..< nat ofs + n])) w in
             if n > 0 \<and> ofs + int n < buflen
             then send_to_socket_from env buflen i (ofs + int n) w1
             else send_to_socket_from env buflen (i + 1) 0 w1)
      else w)"
  by pat_completeness auto

termination send_to_socket_from
proof (relation "measures [\<lambda>(env, buflen, i, ofs, w). unat (clientlist_use w) - unat i,
                            \<lambda>(env, buflen, i, ofs, w). nat (buflen - ofs)]", goal_cases)
  case 1
  show ?case by simp
next
  case (2 env buflen i ofs w fd r w1)
  have "unat (clientlist_use w - 1) = unat (clientlist_use w) - 1"
    using 2(1) by unat_arith
  with 2 show ?case
    by (auto simp add: close_client_def emit_def Let_def word_less_nat_alt)
next
  case (3 env buflen i ofs w fd r w1)
  have "unat (i + 1) = Suc (unat i)"
    using 3(1) by unat_arith
  with 3 show ?case
    by (auto simp add: emit_def word_less_nat_alt)
next
  case (4 env buflen i ofs w fd n w1)
  then show ?case
    by (simp add: emit_def)
next
  case (5 env buflen i ofs w fd n w1)
  have "unat (i + 1) = Suc (unat i)"
    using 5(1) by unat_arith
  with 5 show ?case
    by (auto simp add: emit_def word_less_nat_alt)
qed

declare send_to_socket_from.simps [simp del]

definition send_to_socket :: "os \<Rightarrow> int \<Rightarrow> world \<Rightarrow> world" where
  "send_to_socket env buflen w = send_to_socket_from env buflen 0 0 w"

subsection \<open>Handshake and streaming loop\<close>

text \<open>
  What a stretch of code hands on: either control goes on (with the packet counter),
  or the function returns a code.
\<close>

datatype step = Continue "32 word" world | Return int world

text \<open>
  \<open>libusb_bulk_transfer\<close> takes its endpoint as an \<^verbatim>\<open>unsigned char\<close>, and
  \<open>start_stream\<close> passes an \<^verbatim>\<open>int\<close>: the value is converted at the call, so
  that the \<open>-1\<close> of an endpoint that was not found arrives as 255.
\<close>

definition to_unsigned_char :: "int \<Rightarrow> int" where
  "to_unsigned_char x = x mod 256"

text \<open>
  The first part of \<open>start_stream\<close>: the bulk transfer of the four bytes of
  \<^verbatim>\<open>MAGIC_PACKET\<close> (\<open>sizeof(MAGIC_PACKET) - 1\<close> is 4) and what is made of its
  result. \<open>dbg\<close> is 0, so the first branch prints nothing.
\<close>

definition send_magic :: "usb_device \<Rightarrow> int \<Rightarrow> world \<Rightarrow> step" where
  "send_magic usbdev outEndpoint w =
     (let (r, success) = bulk_out usbdev (to_unsigned_char outEndpoint);
          w1 = emit (UsbBulkOut (to_unsigned_char outEndpoint)) w
      in if r = LIBUSB_ERROR_TIMEOUT \<and> success = 0 then Continue 0 w1
         else if r = LIBUSB_ERROR_IO then Return WAIT_FOR_HOTPLUG (emit (Printf '' send:io'') w1)
         else if r \<noteq> 0 then Return r (emit (Printf ''send(magic): sent'') w1)
         else if success \<noteq> 4 then
           Return LIBUSB_ERROR_TIMEOUT (emit (Printf ''send(magic): sent want'') w1)
         else Continue 0 w1)"

text \<open>
  The \<open>if\<close> chain after the bulk read, with the result code \<open>r\<close> and the byte count
  \<open>success\<close> of the transfer.
\<close>

definition classify_rx :: "os \<Rightarrow> int \<Rightarrow> int \<Rightarrow> 32 word \<Rightarrow> world \<Rightarrow> step" where
  "classify_rx env r success count w =
     (if r = LIBUSB_ERROR_TIMEOUT \<and> success = 0 then
        Continue 0 (emit (Usleep (500 * 1000)) (emit (Printf ''video signal: OFF'') w))
      else if r = LIBUSB_ERROR_IO then Return WAIT_FOR_HOTPLUG (emit (Printf '' wait:io'') w)
      else if r = LIBUSB_ERROR_NO_DEVICE then
        Return WAIT_FOR_HOTPLUG (emit (Printf '' wait:no dev'') w)
      else if r = LIBUSB_ERROR_NOT_FOUND then
        Return WAIT_FOR_HOTPLUG (emit (Printf '' wait:not found'') w)
      else if r \<noteq> 0 then Return r (emit (Printf ''rx: got'') w)
      else Continue count (send_to_socket env success (emit (Printf ''video packet'') w)))"

text \<open>The bulk read stores what it transferred at the start of \<open>buf\<close>.\<close>

definition bulk_read :: "usb_device \<Rightarrow> int \<Rightarrow> world \<Rightarrow> (int \<times> int) \<times> world" where
  "bulk_read usbdev inEndpoint w =
     (let (r, bytes) = bulk_in usbdev (trace w) (to_unsigned_char inEndpoint);
          w1 = emit (UsbBulkIn (to_unsigned_char inEndpoint)) w
      in ((r, int (length bytes)),
          w1\<lparr>buf := (\<lambda>p. if p < length bytes then bytes ! p else buf w1 p)\<rparr>))"

text \<open>
  The \<open>for (;; count++)\<close> loop of \<open>start_stream\<close>. It has no exit of its own, and
  \<open>recv_and_discard\<close> may not come back: \<open>None\<close> when the loop never returns.
\<close>

partial_function (option) start_stream_loop ::
  "os \<Rightarrow> usb_device \<Rightarrow> int \<Rightarrow> 32 word \<Rightarrow> world \<Rightarrow> (int \<times> world) option" where
  "start_stream_loop env usbdev inEndpoint count w =
     Option.bind (recv_and_discard env (accept_any_connection env w)) (\<lambda>w1.
       case bulk_read usbdev inEndpoint w1 of ((r, success), w2) \<Rightarrow>
         (case classify_rx env r success count w2 of
            Return r' w3 \<Rightarrow> Some (r', w3)
          | Continue count' w3 \<Rightarrow> start_stream_loop env usbdev inEndpoint (count' + 1) w3))"

declare start_stream_loop.simps [code]

definition start_stream ::
  "os \<Rightarrow> usb_device \<Rightarrow> int \<Rightarrow> int \<Rightarrow> world \<Rightarrow> (int \<times> world) option" where
  "start_stream env usbdev inEndpoint outEndpoint w =
     (case send_magic usbdev outEndpoint w of
        Return r w1 \<Rightarrow> Some (r, w1)
      | Continue count w1 \<Rightarrow> start_stream_loop env usbdev inEndpoint count w1)"

subsection \<open>Device discovery\<close>

text \<open>
  The three nested loops of \<open>start_with_a_device\<close> over the configuration descriptor.
  The innermost one finds the first IN and the first OUT endpoint address of an
  alternate setting; \<open>-1\<close> stands for "none yet".
\<close>

fun scan_endpoints :: "endpoint_descriptor list \<Rightarrow> int \<times> int \<Rightarrow> int \<times> int" where
  "scan_endpoints [] (firstIn, firstOut) = (firstIn, firstOut)"
| "scan_endpoints (dep # deps) (firstIn, firstOut) =
     (let firstIn' = (if bEndpointAddress dep AND LIBUSB_ENDPOINT_IN \<noteq> 0 \<and> firstIn = - 1
                      then uint (bEndpointAddress dep) else firstIn);
          firstOut' = (if \<not> (bEndpointAddress dep AND LIBUSB_ENDPOINT_IN \<noteq> 0) \<and> firstOut = - 1
                       then uint (bEndpointAddress dep) else firstOut)
      in scan_endpoints deps (firstIn', firstOut'))"

text \<open>The locals \<open>find_FF_43\<close>, \<open>inEndpoint\<close>, \<open>outEndpoint\<close>, and the world.\<close>

type_synonym scan = "int \<times> int \<times> int \<times> world"

fun scan_altsettings :: "nat \<Rightarrow> nat \<Rightarrow> interface_descriptor list \<Rightarrow> scan \<Rightarrow> scan" where
  "scan_altsettings i j [] s = s"
| "scan_altsettings i j (alt # alts) (find_FF_43, inEndpoint, outEndpoint, w) =
     (let (firstIn, firstOut) = scan_endpoints (endpoint alt) (- 1, - 1) in
      scan_altsettings i (Suc j) alts
        (if j = 0 \<and> bInterfaceClass alt = 0xff \<and> bInterfaceSubClass alt = 0x43 then
           (if firstIn \<noteq> - 1 \<and> firstOut \<noteq> - 1 then (int i, firstIn, firstOut, w)
            else (find_FF_43, inEndpoint, outEndpoint, w))
         else if bInterfaceClass alt = 0xff \<and> bInterfaceSubClass alt = 0x43 then
           (find_FF_43, inEndpoint, outEndpoint,
            emit (Printf ''alt 0 ok, but nAlt unexpected, will keep going'') w)
         else (find_FF_43, inEndpoint, outEndpoint, w)))"

fun scan_interfaces :: "nat \<Rightarrow> libusb_interface list \<Rightarrow> scan \<Rightarrow> scan" where
  "scan_interfaces i [] s = s"
| "scan_interfaces i (iface # ifaces) (find_FF_43, inEndpoint, outEndpoint, w) =
     scan_interfaces (Suc i) ifaces
       (scan_altsettings i 0 iface
         (find_FF_43, inEndpoint, outEndpoint,
          if length iface = 0 then emit (Printf ''iface no alt'') w else w))"

text \<open>
  The configuration part of \<open>start_with_a_device\<close>, after \<open>libusb_open\<close>: a failed
  \<open>libusb_get_configuration\<close> is only printed; an unconfigured device is configured, and a
  failure of that returns (\<open>Inl\<close>).
\<close>

definition configure :: "usb_device \<Rightarrow> world \<Rightarrow> (int \<times> world) + world" where
  "configure dev w =
     (let (r, cfg) = get_configuration dev in
      if r \<noteq> 0 then Inr (emit (Printf ''get_configuration failed'') w)
      else if cfg = 0 then
        (let w1 = emit (UsbSetConfiguration GOGGLES_WANT_CFG) (emit (Printf ''need to set cfg'') w);
             r = set_configuration dev
         in if r \<noteq> 0 then Inl (r, emit (Printf ''set_configuration failed'') w1) else Inr w1)
      else Inr w)"

text \<open>
  The rest of \<open>start_with_a_device\<close>, from \<open>libusb_claim_interface\<close> on, with the
  results of the scan.
\<close>

definition claim_and_stream :: "os \<Rightarrow> usb_device \<Rightarrow> device_descriptor \<Rightarrow> scan \<Rightarrow> (int \<times> world) option" where
  "claim_and_stream env dev desc s =
     (case s of (find_FF_43, inEndpoint, outEndpoint, w) \<Rightarrow>
        let r = claim_interface dev find_FF_43;
            w1 = emit (UsbClaimInterface find_FF_43) w
        in if r \<noteq> 0 then Some (r, emit UsbClose (emit (Printf ''libusb_claim failed'') w1))
           else
             let (r, cfg) = get_configuration_again dev in
             if r \<noteq> 0 then
               Some (r, emit UsbClose (emit (Printf ''libusb_get_configuration failed'') w1))
             else
               let w2 = (if cfg \<noteq> 1 \<or> bNumConfigurations desc \<noteq> 1
                         then emit (Printf ''cfg nCfgs unexpected, will keep going'') w1 else w1)
               in map_option (\<lambda>(r, w3). (r, emit UsbClose w3))
                    (start_stream env dev inEndpoint outEndpoint w2))"

definition start_with_a_device :: "os \<Rightarrow> usb_device \<Rightarrow> world \<Rightarrow> (int \<times> world) option" where
  "start_with_a_device env dev w =
     (let (r, desc) = get_device_descriptor dev in
      if r \<noteq> 0 then Some (r, emit (Printf ''get_device_descriptor failed'') w)
      else if idVendor desc \<noteq> VENDOR_ID_DJI \<or> idProduct desc \<noteq> DEVICE_ID_GOGGLES then
        Some (VENDOR_ID_DJI, w)
      else if libusb_open dev \<noteq> 0 then
        Some (WAIT_FOR_HOTPLUG, emit (Printf ''libusb_open failed'') w)
      else
        case configure dev (emit UsbOpen w) of
          Inl res \<Rightarrow> Some res
        | Inr w1 \<Rightarrow>
            let (r, cdesc) = get_config_descriptor dev in
            if r \<noteq> 0 then Some (r, emit (Printf ''get_config_descriptor failed'') w1)
            else claim_and_stream env dev desc (scan_interfaces 0 cdesc (- 1, - 1, - 1, w1)))"

subsection \<open>Outer supervisor\<close>

text \<open>
  The inner loop of \<open>start_usb2sock\<close> over the device list: \<open>r\<close> keeps its value when
  the list is empty, a device that answers \<open>VENDOR_ID_DJI\<close> is passed over, any other
  answer ends the loop.
\<close>

fun try_devices :: "os \<Rightarrow> usb_device list \<Rightarrow> int \<Rightarrow> world \<Rightarrow> (int \<times> world) option" where
  "try_devices env [] r w = Some (r, w)"
| "try_devices env (dev # devs) r w =
     Option.bind (start_with_a_device env dev w) (\<lambda>(r', w').
       if r' = VENDOR_ID_DJI then try_devices env devs r' w' else Some (r', w'))"

text \<open>
  The \<open>for (;;)\<close> loop of \<open>start_usb2sock\<close>. A failed \<open>libusb_get_device_list\<close>
  (\<open>cnt < 0\<close>) goes straight to the next pass.
\<close>

partial_function (option) start_usb2sock_loop :: "os \<Rightarrow> world \<Rightarrow> (int \<times> world) option" where
  "start_usb2sock_loop env w =
     Option.bind (recv_and_discard env (accept_any_connection env w)) (\<lambda>w1.
       case get_device_list env (trace w1) of
         ListFailed cnt \<Rightarrow> start_usb2sock_loop env (emit UsbGetDeviceList w1)
       | Devices devs \<Rightarrow>
           Option.bind (try_devices env devs 0 (emit UsbGetDeviceList w1)) (\<lambda>(r, w2).
             if r = 0 then Some (r, w2)
             else if r \<noteq> WAIT_FOR_HOTPLUG \<and> r \<noteq> VENDOR_ID_DJI then Some (r, w2)
             else start_usb2sock_loop env
                    (emit (Usleep (500 * 1000)) (emit (Printf ''Please plug in goggles'') w2))))"

declare start_usb2sock_loop.simps [code]

text \<open>
  \<open>start_usb2sock\<close>, whose result is the exit status of the process: the set-up of
  libusb and of the listening socket, the loop, and \<open>libusb_exit\<close>.
\<close>

definition start_usb2sock :: "os \<Rightarrow> world \<Rightarrow> (int \<times> world) option" where
  "start_usb2sock env w =
     (if libusb_init_context env < 0 then Some (libusb_init_context env, emit (Printf ''libusb_init_context'') w)
      else if sys_socket env < 0 then Some (1, emit (Printf ''socket(AF_INET) tcp socket failed'') w)
      else if sys_setsockopt_reuseaddr env \<noteq> 0 then
        Some (1, emit (Printf ''SO_REUSEADDR: tcp socket failed'') w)
      else if sys_setsockopt_nosigpipe env \<noteq> 0 then
        Some (1, emit (Printf ''SO_NOSIGPIPE: tcp socket failed'') w)
      else if sys_bind env \<noteq> 0 then Some (1, emit (Printf ''bind tcp socket failed'') w)
      else if sys_listen env \<noteq> 0 then Some (1, emit (Printf ''listen tcp socket failed'') w)
      else if sys_fcntl_listener env \<noteq> 0 then
        Some (1, emit (Printf ''O_NONBLOCK tcp socket failed'') w)
      else map_option (\<lambda>(r, w1). (r, emit UsbExit w1)) (start_usb2sock_loop env w))"

text \<open>The start of the process: no client, nothing done yet.\<close>

definition initially :: world where
  "initially = \<lparr>clientlist = (\<lambda>_. 0), clientlist_use = 0, buf = (\<lambda>_. 0), trace = []\<rparr>"

subsection \<open>What is observed\<close>

text \<open>The registry as a sequence: the entries \<open>0 .. clientlist_use - 1\<close> of the array.\<close>

definition registry :: "world \<Rightarrow> c_int list" where
  "registry w = map (clientlist w) [0 ..< unat (clientlist_use w)]"

text \<open>
  The removal the specification describes (its \<open>removeAt\<close>): the entry at \<open>i\<close> goes,
  the later ones move down by one, the order stays.
\<close>

definition removeAt :: "nat \<Rightarrow> 'a list \<Rightarrow> 'a list" where
  "removeAt i xs = take i xs @ drop (Suc i) xs"

text \<open>The descriptors read, the descriptors closed, and the bytes one descriptor was sent.\<close>

definition reads_of :: "event list \<Rightarrow> c_int list" where
  "reads_of tr = concat (map (\<lambda>e. case e of SysRead fd \<Rightarrow> [fd] | _ \<Rightarrow> []) tr)"

definition closes_of :: "event list \<Rightarrow> c_int list" where
  "closes_of tr = concat (map (\<lambda>e. case e of SysClose fd \<Rightarrow> [fd] | _ \<Rightarrow> []) tr)"

definition received :: "c_int \<Rightarrow> event list \<Rightarrow> byte list" where
  "received fd tr =
     concat (map (\<lambda>e. case e of SysWrite fd' bs \<Rightarrow> if fd' = fd then bs else [] | _ \<Rightarrow> []) tr)"

definition writes_of :: "event list \<Rightarrow> c_int list" where
  "writes_of tr = concat (map (\<lambda>e. case e of SysWrite fd bs \<Rightarrow> [fd] | _ \<Rightarrow> []) tr)"

text \<open>A world that differs from \<open>w\<close> by lines printed.\<close>

definition printed :: "string list \<Rightarrow> world \<Rightarrow> world" where
  "printed ps w = w\<lparr>trace := trace w @ map Printf ps\<rparr>"

text \<open>
  The results of a device pass on which the loop of \<open>start_usb2sock\<close> ends with a
  status other than 0: every one but 0, \<open>WAIT_FOR_HOTPLUG\<close> and \<open>VENDOR_ID_DJI\<close>.
\<close>

definition fatal :: "int \<Rightarrow> bool" where
  "fatal r \<longleftrightarrow> r \<noteq> 0 \<and> r \<noteq> WAIT_FOR_HOTPLUG \<and> r \<noteq> VENDOR_ID_DJI"



text \<open>A device whose descriptor can be read and shows another identity.\<close>

definition wrong_device :: "usb_device \<Rightarrow> bool" where
  "wrong_device dev \<longleftrightarrow>
     fst (get_device_descriptor dev) = 0 \<and>
     \<not> (idVendor (snd (get_device_descriptor dev)) = VENDOR_ID_DJI \<and>
        idProduct (snd (get_device_descriptor dev)) = DEVICE_ID_GOGGLES)"

subsection \<open>Concrete environments\<close>

text \<open>
  Nothing happens: no client arrives, reads and writes never fail, sockets take all they
  are given, and no USB device is attached.
\<close>

definition quiet :: os where
  "quiet = \<lparr>libusb_init_context = 0, sys_socket = 3, sys_setsockopt_reuseaddr = 0,
     sys_setsockopt_nosigpipe = 0, sys_bind = 0, sys_listen = 0, sys_fcntl_listener = 0,
     sys_accept = (\<lambda>tr. AcceptFailed EAGAIN),
     sys_fcntl = (\<lambda>tr fd. 0),
     sys_read = (\<lambda>tr fd. Failed EAGAIN),
     sys_write = (\<lambda>tr fd n. Returned (nat n)),
     get_device_list = (\<lambda>tr. Devices [])\<rparr>"

definition accepts_so_far :: "event list \<Rightarrow> nat" where
  "accepts_so_far tr = length (filter (\<lambda>e. e = SysAccept) tr)"

text \<open>Three clients arrive, one per \<open>accept\<close>, on the descriptors 4, 5 and 6.\<close>

definition three_arrivals :: os where
  "three_arrivals = quiet\<lparr>sys_accept := (\<lambda>tr.
     if accepts_so_far tr < 3 then Accepted (4 + of_nat (accepts_so_far tr)) True 16
     else AcceptFailed EAGAIN)\<rparr>"

definition three_clients :: world where
  "three_clients =
     accept_any_connection three_arrivals
       (accept_any_connection three_arrivals (accept_any_connection three_arrivals initially))"

text \<open>The client on descriptor 4 has closed its end; the client on 4 cannot be written to.\<close>

definition first_hangs_up :: os where
  "first_hangs_up = quiet\<lparr>sys_read := (\<lambda>tr fd. if fd = 4 then Returned 0 else Failed EAGAIN)\<rparr>"

definition first_write_fails :: os where
  "first_write_fails =
     quiet\<lparr>sys_write := (\<lambda>tr fd n. if fd = 4 then Failed 32 else Returned (nat n))\<rparr>"

text \<open>
  One client arrives on descriptor 4, \<open>fcntl\<close> fails on it, and later reads of the
  descriptor fail with \<open>EBADF\<close> (9).
\<close>

definition nonblock_fails :: os where
  "nonblock_fails = quiet\<lparr>
     sys_accept := (\<lambda>tr. if accepts_so_far tr < 1 then Accepted 4 True 16 else AcceptFailed EAGAIN),
     sys_fcntl := (\<lambda>tr fd. - 1),
     sys_read := (\<lambda>tr fd. Failed 9)\<rparr>"

text \<open>
  The goggles: the right identity, configured, one vendor interface with the bulk
  endpoints \<open>0x84\<close> (in) and \<open>0x03\<close> (out), no video signal.
\<close>

definition goggles :: usb_device where
  "goggles = \<lparr>
     get_device_descriptor =
       (0, \<lparr>idVendor = 0x2ca3, idProduct = 0x001f, bNumConfigurations = 1\<rparr>),
     libusb_open = 0,
     get_configuration = (0, 1),
     set_configuration = 0,
     get_config_descriptor =
       (0, [[\<lparr>bInterfaceClass = 0xff, bInterfaceSubClass = 0x43,
               endpoint = [\<lparr>bEndpointAddress = 0x84\<rparr>, \<lparr>bEndpointAddress = 0x03\<rparr>]\<rparr>]]),
     claim_interface = (\<lambda>i. if i = 0 then 0 else - 2),
     get_configuration_again = (0, 1),
     bulk_out = (\<lambda>ep. (0, 4)),
     bulk_in = (\<lambda>tr ep. (LIBUSB_ERROR_TIMEOUT, []))\<rparr>"

text \<open>The goggles deliver two bytes of video on the first bulk read and are gone at the next.\<close>

definition two_bytes_then_gone :: usb_device where
  "two_bytes_then_gone = goggles\<lparr>bulk_in := (\<lambda>tr ep.
     if UsbBulkIn ep \<in> set tr then (LIBUSB_ERROR_NO_DEVICE, []) else (0, [0x41, 0x42]))\<rparr>"

text \<open>The goggles unconfigured, and refusing the configuration.\<close>

definition unconfigurable :: usb_device where
  "unconfigurable = goggles\<lparr>get_configuration := (0, 0), set_configuration := - 1\<rparr>"


section \<open>Properties\<close>

subsection \<open>Simple facts\<close>

lemma trace_emit [simp]: "trace (emit e w) = trace w @ [e]"
  and clientlist_emit [simp]: "clientlist (emit e w) = clientlist w"
  and clientlist_use_emit [simp]: "clientlist_use (emit e w) = clientlist_use w"
  and buf_emit [simp]: "buf (emit e w) = buf w"
  by (simp_all add: emit_def)

lemma printed_Nil [simp]: "printed [] w = w"
  by (simp add: printed_def)

lemma printed_printed [simp]: "printed qs (printed ps w) = printed (ps @ qs) w"
  by (simp add: printed_def)


lemma registry_printed [simp]: "registry (printed ps w) = registry w"
  by (simp add: printed_def registry_def)

lemma length_registry: "length (registry w) = unat (clientlist_use w)"
  by (simp add: registry_def)

subsection \<open>The scan of the configuration descriptor\<close>






subsection \<open>The registry in memory\<close>

lemma closes_of_append [simp]: "closes_of (xs @ ys) = closes_of xs @ closes_of ys"
  by (simp add: closes_of_def)

lemma closes_of_simps [simp]:
  "closes_of [] = []"
  "closes_of (SysClose fd # tr) = fd # closes_of tr"
  "closes_of (SysAccept # tr) = closes_of tr"
  "closes_of (SysFcntl fd # tr) = closes_of tr"
  "closes_of (SysRead fd # tr) = closes_of tr"
  "closes_of (SysWrite fd bs # tr) = closes_of tr"
  "closes_of (Printf p # tr) = closes_of tr"
  "closes_of (Usleep n # tr) = closes_of tr"
  by (simp_all add: closes_of_def)

lemma clientlist_use_close_client [simp]:
  "clientlist_use (close_client i w) = clientlist_use w - 1"
  by (simp add: close_client_def Let_def emit_def)

lemma trace_close_client [simp]:
  "trace (close_client i w) = trace w @ [SysClose (clientlist w (unat i))]"
  by (simp add: close_client_def Let_def emit_def)

text \<open>The four bytes of an \<^verbatim>\<open>int\<close> make the \<^verbatim>\<open>int\<close> again.\<close>

lemma int_of_bytes_int_byte:
  "int_of_bytes (int_byte x 0) (int_byte x 1) (int_byte x 2) (int_byte x 3) = x"
proof (rule bit_word_eqI)
  fix n :: nat
  assume "n < LENGTH(32)"
  then have "n < 8 \<or> (8 \<le> n \<and> n < 16) \<or> (16 \<le> n \<and> n < 24) \<or> (24 \<le> n \<and> n < 32)"
    by auto
  then show "bit (int_of_bytes (int_byte x 0) (int_byte x 1) (int_byte x 2) (int_byte x 3)) n = bit x n"
    by (auto simp add: int_of_bytes_def int_byte_def bit_simps)
qed

lemma array_bytes_entry:
  "k < 4 \<Longrightarrow> array_bytes a (4 * j + k) = int_byte (a j) k"
  by (simp add: array_bytes_def)

lemma bytes_array_untouched:
  assumes "\<And>k. k < 4 \<Longrightarrow> m (4 * j + k) = array_bytes a (4 * j + k)"
  shows "bytes_array m j = a j"
proof -
  have "m (4 * j) = int_byte (a j) 0" "m (4 * j + 1) = int_byte (a j) 1"
    "m (4 * j + 2) = int_byte (a j) 2" "m (4 * j + 3) = int_byte (a j) 3"
    using assms [of 0] assms [of 1] assms [of 2] assms [of 3]
      array_bytes_entry [of 0 a j] array_bytes_entry [of 1 a j]
      array_bytes_entry [of 2 a j] array_bytes_entry [of 3 a j]
    by simp_all
  then show ?thesis
    unfolding bytes_array_def by (simp only: int_of_bytes_int_byte)
qed

text \<open>
  \<open>close_client\<close> leaves an entry as it was when none of its four bytes lies in the
  \<open>clientlist_use - i\<close> bytes that \<open>memmove\<close> writes.
\<close>

lemma close_client_entry_untouched:
  assumes "j < unat i \<or> 4 * unat i + unat (clientlist_use w - 1 - i) \<le> 4 * j"
  shows "clientlist (close_client i w) j = clientlist w j"
proof -
  have "bytes_array (memmove (array_bytes (clientlist w)) (4 * unat i) (4 * (unat i + 1))
          (unat (clientlist_use w - 1 - i))) j = clientlist w j"
  proof (rule bytes_array_untouched)
    fix k :: nat
    assume "k < 4"
    with assms show "memmove (array_bytes (clientlist w)) (4 * unat i) (4 * (unat i + 1))
          (unat (clientlist_use w - 1 - i)) (4 * j + k) = array_bytes (clientlist w) (4 * j + k)"
      by (auto simp add: memmove_def)
  qed
  then show ?thesis
    by (simp add: close_client_def Let_def emit_def)
qed

lemma close_client_last_slot:
  assumes "unat i + 2 < unat (clientlist_use w)"
  shows "clientlist (close_client i w) (unat (clientlist_use w) - 2) =
         clientlist w (unat (clientlist_use w) - 2)"
proof (rule close_client_entry_untouched)
  from assms have "unat (clientlist_use w - 1 - i) = unat (clientlist_use w) - 1 - unat i"
    by unat_arith
  with assms show "unat (clientlist_use w) - 2 < unat i \<or>
      4 * unat i + unat (clientlist_use w - 1 - i) \<le> 4 * (unat (clientlist_use w) - 2)"
    by arith
qed

lemma nth_removeAt: "i \<le> k \<Longrightarrow> Suc k < length xs \<Longrightarrow> removeAt i xs ! k = xs ! Suc k"
  by (simp add: removeAt_def nth_append min_def)

subsection \<open>One pass of each loop\<close>

lemma libusb_errors_fatal: "r < 0 \<Longrightarrow> fatal r"
  by (simp add: fatal_def WAIT_FOR_HOTPLUG_def VENDOR_ID_DJI_def)

lemma send_to_socket_from_unfold:
  "send_to_socket_from env buflen i ofs w =
     (if i < clientlist_use w then
        (let fd = clientlist w (unat i) in
         case sys_write env (trace w) fd (buflen - ofs) of
           Failed r \<Rightarrow>
             let w1 = emit (SysWrite fd []) w in
             if r \<noteq> EWOULDBLOCK \<and> r \<noteq> EAGAIN
             then send_to_socket_from env buflen i 0 (close_client i w1)
             else send_to_socket_from env buflen (i + 1) 0 w1
         | Returned n \<Rightarrow>
             let w1 = emit (SysWrite fd (map (buf w) [nat ofs ..< nat ofs + n])) w in
             if n > 0 \<and> ofs + int n < buflen
             then send_to_socket_from env buflen i (ofs + int n) w1
             else send_to_socket_from env buflen (i + 1) 0 w1)
      else w)"
  by (rule send_to_socket_from.simps)

text \<open>
  The broadcast at one peer, with no removal: the peer takes \<open>m\<close> bytes of \<open>buflen\<close>
  and then would block; it has the first \<open>m\<close> bytes, and the loop is at the next index.
\<close>

lemma slow_peer_keeps_prefix:
  assumes "i < clientlist_use w"
    and "sys_write env (trace w) (clientlist w (unat i)) buflen = Returned m"
    and "0 < m" and "int m < buflen"
    and "sys_write env (trace w @ [SysWrite (clientlist w (unat i)) (map (buf w) [0 ..< m])])
           (clientlist w (unat i)) (buflen - int m) = Failed EAGAIN"
  shows "send_to_socket_from env buflen i 0 w =
           send_to_socket_from env buflen (i + 1) 0
             (w\<lparr>trace := trace w @ [SysWrite (clientlist w (unat i)) (map (buf w) [0 ..< m]),
                                      SysWrite (clientlist w (unat i)) []]\<rparr>)"
proof -
  let ?fd = "clientlist w (unat i)"
  let ?w1 = "emit (SysWrite ?fd (map (buf w) [0 ..< m])) w"
  from assms(1-4) have "send_to_socket_from env buflen i 0 w =
      send_to_socket_from env buflen i (int m) ?w1"
    by (subst send_to_socket_from_unfold) simp
  also from assms(1,5) have "\<dots> = send_to_socket_from env buflen (i + 1) 0 (emit (SysWrite ?fd []) ?w1)"
    by (subst send_to_socket_from_unfold) (simp add: EAGAIN_def EWOULDBLOCK_def Let_def)
  finally show ?thesis
    by (simp add: emit_def)
qed

text \<open>A write error other than "would block": the entry is closed, the index stays.\<close>

lemma failed_peer_is_closed:
  assumes "i < clientlist_use w"
    and "sys_write env (trace w) (clientlist w (unat i)) (buflen - ofs) = Failed r"
    and "r \<noteq> EWOULDBLOCK" and "r \<noteq> EAGAIN"
  shows "send_to_socket_from env buflen i ofs w =
           send_to_socket_from env buflen i 0
             (close_client i (emit (SysWrite (clientlist w (unat i)) []) w))"
  using assms by (subst send_to_socket_from_unfold) simp

text \<open>
  The drain when no peer has anything to say: it returns, nothing is removed, and the
  entries are read once each, in order.
\<close>

lemma drain_idle:
  assumes idle: "\<And>tr fd. sys_read env tr fd = Failed EAGAIN"
  shows "recv_and_discard_from env i w =
     Some (w\<lparr>trace := trace w @
             map (\<lambda>j. SysRead (clientlist w j)) [unat i ..< unat (clientlist_use w)]\<rparr>)"
proof (induction "unat (clientlist_use w) - unat i" arbitrary: i w)
  case 0
  then have "\<not> i < clientlist_use w"
    by (simp add: word_less_nat_alt)
  with 0 show ?case
    by (subst recv_and_discard_from.simps) simp
next
  case (Suc n)
  then have less: "i < clientlist_use w"
    by (simp add: word_less_nat_alt)
  then have inc: "unat (i + 1) = Suc (unat i)"
    by unat_arith
  let ?w1 = "emit (SysRead (clientlist w (unat i))) w"
  from Suc(2) inc have "n = unat (clientlist_use ?w1) - unat (i + 1)"
    by simp
  from Suc(1) [OF this]
  have "recv_and_discard_from env (i + 1) ?w1 =
     Some (?w1\<lparr>trace := trace ?w1 @
             map (\<lambda>j. SysRead (clientlist ?w1 j)) [unat (i + 1) ..< unat (clientlist_use ?w1)]\<rparr>)" .
  moreover from less have "[unat i ..< unat (clientlist_use w)] =
      unat i # [Suc (unat i) ..< unat (clientlist_use w)]"
    by (simp add: word_less_nat_alt upt_conv_Cons)
  ultimately show ?case
    using less inc
    by (subst recv_and_discard_from.simps) (simp add: idle emit_def EAGAIN_def)
qed

lemma drain_idle_once:
  assumes idle: "\<And>tr fd. sys_read env tr fd = Failed EAGAIN"
  shows "map_option (\<lambda>w'. (reads_of (trace w'), registry w')) (recv_and_discard env w) =
     Some (reads_of (trace w) @ registry w, registry w)"
proof -
  have "reads_of (map (\<lambda>j. SysRead (clientlist w j)) js) = map (clientlist w) js" for js
    by (induction js) (simp_all add: reads_of_def)
  then show ?thesis
    by (simp add: recv_and_discard_def drain_idle [OF idle] registry_def reads_of_def)
qed

lemma start_stream_loop_pass:
  assumes "recv_and_discard env (accept_any_connection env w) = Some w1"
    and "bulk_read usbdev inEndpoint w1 = ((r, success), w2)"
  shows "start_stream_loop env usbdev inEndpoint count w =
     (case classify_rx env r success count w2 of
        Return r' w3 \<Rightarrow> Some (r', w3)
      | Continue count' w3 \<Rightarrow> start_stream_loop env usbdev inEndpoint (count' + 1) w3)"
  by (subst start_stream_loop.simps) (simp add: assms)

lemma bulk_read_world:
  assumes "bulk_read usbdev inEndpoint w1 = ((r, success), w2)"
  shows "trace w2 = trace w1 @ [UsbBulkIn (to_unsigned_char inEndpoint)]"
    and "clientlist w2 = clientlist w1" and "clientlist_use w2 = clientlist_use w1"
  using assms by (auto simp add: bulk_read_def Let_def split: prod.splits)

lemma bulk_read_snd:
  "bulk_read usbdev ep w =
     ((fst (bulk_in usbdev (trace w) (to_unsigned_char ep)),
       int (length (snd (bulk_in usbdev (trace w) (to_unsigned_char ep))))),
      snd (bulk_read usbdev ep w))"
  by (simp add: bulk_read_def Let_def split: prod.splits)

text \<open>
  The branches of the \<open>if\<close> chain after the bulk read. The loop takes them through
  \<open>start_stream_loop_pass\<close>.
\<close>

lemma classify_rx_no_signal:
  "classify_rx env LIBUSB_ERROR_TIMEOUT 0 count w =
     Continue 0 (emit (Usleep 500000) (emit (Printf ''video signal: OFF'') w))"
  by (simp add: classify_rx_def)

lemma classify_rx_gone:
  assumes "r = LIBUSB_ERROR_IO \<or> r = LIBUSB_ERROR_NO_DEVICE \<or> r = LIBUSB_ERROR_NOT_FOUND"
  shows "\<exists>p. classify_rx env r success count w = Return WAIT_FOR_HOTPLUG (emit (Printf p) w)"
  using assms
  by (auto simp add: classify_rx_def LIBUSB_ERROR_IO_def LIBUSB_ERROR_NO_DEVICE_def
      LIBUSB_ERROR_NOT_FOUND_def LIBUSB_ERROR_TIMEOUT_def)

lemma classify_rx_other:
  assumes "r \<noteq> 0" and "\<not> (r = LIBUSB_ERROR_TIMEOUT \<and> success = 0)"
    and "r \<noteq> LIBUSB_ERROR_IO" and "r \<noteq> LIBUSB_ERROR_NO_DEVICE" and "r \<noteq> LIBUSB_ERROR_NOT_FOUND"
  shows "classify_rx env r success count w = Return r (emit (Printf ''rx: got'') w)"
  using assms by (auto simp add: classify_rx_def)

lemma classify_rx_data:
  "classify_rx env 0 success count w =
     Continue count (send_to_socket env success (emit (Printf ''video packet'') w))"
  by (simp add: classify_rx_def LIBUSB_ERROR_IO_def LIBUSB_ERROR_NO_DEVICE_def
      LIBUSB_ERROR_NOT_FOUND_def LIBUSB_ERROR_TIMEOUT_def)

lemma start_usb2sock_loop_pass:
  assumes "recv_and_discard env (accept_any_connection env w) = Some w1"
    and "get_device_list env (trace w1) = Devices devs"
    and "try_devices env devs 0 (emit UsbGetDeviceList w1) = Some (r, w2)"
  shows "start_usb2sock_loop env w =
     (if r = 0 then Some (r, w2)
      else if r \<noteq> WAIT_FOR_HOTPLUG \<and> r \<noteq> VENDOR_ID_DJI then Some (r, w2)
      else start_usb2sock_loop env
             (emit (Usleep (500 * 1000)) (emit (Printf ''Please plug in goggles'') w2)))"
  by (subst start_usb2sock_loop.simps) (simp add: assms)

text \<open>What the loop of \<open>start_usb2sock\<close> makes of the result of a device pass.\<close>

lemma fatal_ends_loop:
  assumes "recv_and_discard env (accept_any_connection env w) = Some w1"
    and "get_device_list env (trace w1) = Devices devs"
    and "try_devices env devs 0 (emit UsbGetDeviceList w1) = Some (r, w2)"
    and "fatal r"
  shows "start_usb2sock_loop env w = Some (r, w2)"
  using assms(4) by (simp add: start_usb2sock_loop_pass [OF assms(1-3)] fatal_def)

lemma restart_waits:
  assumes "recv_and_discard env (accept_any_connection env w) = Some w1"
    and "get_device_list env (trace w1) = Devices devs"
    and "try_devices env devs 0 (emit UsbGetDeviceList w1) = Some (r, w2)"
    and "r = WAIT_FOR_HOTPLUG \<or> r = VENDOR_ID_DJI"
  shows "start_usb2sock_loop env w =
     start_usb2sock_loop env
       (emit (Usleep (500 * 1000)) (emit (Printf ''Please plug in goggles'') w2))"
  using assms(4)
  by (auto simp add: start_usb2sock_loop_pass [OF assms(1-3)] WAIT_FOR_HOTPLUG_def VENDOR_ID_DJI_def)

lemma wrong_device_passed_over:
  "wrong_device dev \<Longrightarrow> start_with_a_device env dev w = Some (VENDOR_ID_DJI, w)"
  by (cases "get_device_descriptor dev") (auto simp add: wrong_device_def start_with_a_device_def)

lemma try_devices_no_match:
  "list_all wrong_device devs \<Longrightarrow>
   try_devices env devs r w = Some (if devs = [] then r else VENDOR_ID_DJI, w)"
proof (induction devs arbitrary: r)
  case Nil
  then show ?case by simp
next
  case (Cons dev devs)
  then show ?case
    by (simp add: wrong_device_passed_over)
qed

text \<open>
  A pass over a device list that is not empty and holds no device of the right identity:
  the prompt, the sleep of half a second, and the next pass.
\<close>

lemma no_match_waits:
  assumes drained: "recv_and_discard env (accept_any_connection env w) = Some w1"
    and listed: "get_device_list env (trace w1) = Devices devs"
    and some: "devs \<noteq> []"
    and wrong: "list_all wrong_device devs"
  shows "start_usb2sock_loop env w =
     start_usb2sock_loop env
       (emit (Usleep (500 * 1000)) (emit (Printf ''Please plug in goggles'') (emit UsbGetDeviceList w1)))"
proof -
  from some wrong have "try_devices env devs 0 (emit UsbGetDeviceList w1) =
      Some (VENDOR_ID_DJI, emit UsbGetDeviceList w1)"
    by (simp add: try_devices_no_match)
  from restart_waits [OF drained listed this] show ?thesis by simp
qed

text \<open>
  No return of the streaming loop, of \<open>start_stream\<close> or of \<open>start_with_a_device\<close>
  gives 0. So the loop of \<open>start_usb2sock\<close> can end with 0 only on a pass that found
  the device list empty: where the list is never empty, the process never ends with
  status 0.
\<close>

lemma classify_rx_Return_nonzero:
  "classify_rx env r success count w = Return r' w' \<Longrightarrow> r' \<noteq> 0"
  by (auto simp add: classify_rx_def WAIT_FOR_HOTPLUG_def split: if_splits)

lemma start_stream_loop_result_nonzero:
  assumes returned: "start_stream_loop env usbdev inEndpoint count w = Some y"
  shows "fst y \<noteq> 0"
proof (rule start_stream_loop.raw_induct
    [where P = "\<lambda>env usbdev inEndpoint count w y. fst y \<noteq> 0", OF _ returned], goal_cases)
  case (1 loop env usbdev inEndpoint count w y)
  then show ?case
    by (auto simp add: classify_rx_Return_nonzero split: bind_splits prod.splits step.splits)
qed

lemma start_stream_loop_nonzero:
  "start_stream_loop env usbdev inEndpoint count w = Some (r, w') \<Longrightarrow> r \<noteq> 0"
  using start_stream_loop_result_nonzero by fastforce

lemma start_stream_nonzero:
  "start_stream env usbdev inEndpoint outEndpoint w = Some (r, w') \<Longrightarrow> r \<noteq> 0"
  by (auto simp add: start_stream_def send_magic_def WAIT_FOR_HOTPLUG_def LIBUSB_ERROR_TIMEOUT_def
      Let_def start_stream_loop_nonzero split: step.splits prod.splits if_splits)

lemma claim_and_stream_nonzero:
  "claim_and_stream env dev desc s = Some (r, w') \<Longrightarrow> r \<noteq> 0"
  by (auto simp add: claim_and_stream_def Let_def
      split: prod.splits if_splits dest: start_stream_nonzero)

lemma configure_Inl_nonzero: "configure dev w = Inl (r, w') \<Longrightarrow> r \<noteq> 0"
  by (auto simp add: configure_def Let_def split: prod.splits if_splits)

lemma start_with_a_device_nonzero:
  "start_with_a_device env dev w = Some (r, w') \<Longrightarrow> r \<noteq> 0"
  by (auto simp add: start_with_a_device_def Let_def VENDOR_ID_DJI_def WAIT_FOR_HOTPLUG_def
      split: prod.splits if_splits sum.splits
      dest: configure_Inl_nonzero claim_and_stream_nonzero)

lemma try_devices_zero:
  "try_devices env devs r0 w = Some (0, w') \<Longrightarrow> devs = [] \<and> r0 = 0"
proof (induction devs arbitrary: r0 w)
  case Nil
  then show ?case by simp
next
  case (Cons dev devs)
  from Cons.prems obtain r1 w1 where first: "start_with_a_device env dev w = Some (r1, w1)"
    and rest: "(if r1 = VENDOR_ID_DJI then try_devices env devs r1 w1 else Some (r1, w1)) = Some (0, w')"
    by (auto split: bind_splits)
  from first have "r1 \<noteq> 0"
    by (rule start_with_a_device_nonzero)
  show ?case
  proof (cases "r1 = VENDOR_ID_DJI")
    case True
    with rest have "try_devices env devs VENDOR_ID_DJI w1 = Some (0, w')" by simp
    from Cons.IH [OF this] show ?thesis
      by (simp add: VENDOR_ID_DJI_def)
  next
    case False
    with rest \<open>r1 \<noteq> 0\<close> show ?thesis by simp
  qed
qed

lemma exit_zero_needs_empty_list:
  assumes returned: "start_usb2sock_loop env w = Some y"
  shows "fst y = 0 \<longrightarrow> (\<exists>tr. get_device_list env tr = Devices [])"
proof (rule start_usb2sock_loop.raw_induct
    [where P = "\<lambda>env w y. fst y = 0 \<longrightarrow> (\<exists>tr. get_device_list env tr = Devices [])",
     OF _ returned], goal_cases)
  case (1 loop env w y)
  then show ?case
    by (auto split: bind_splits device_list.splits prod.splits if_splits dest: try_devices_zero)
qed

lemma never_zero_with_devices:
  assumes "\<And>tr. get_device_list env tr \<noteq> Devices []"
  shows "start_usb2sock_loop env w \<noteq> Some (0, w')"
  using exit_zero_needs_empty_list [of env w "(0, w')"] assms by auto

lemma start_usb2sock_never_zero:
  assumes "\<And>tr. get_device_list env tr \<noteq> Devices []"
  shows "start_usb2sock env w \<noteq> Some (0, w')"
  using never_zero_with_devices [OF assms, of w]
  by (auto simp add: start_usb2sock_def split: if_splits)

text \<open>From \<open>libusb_claim_interface\<close> on, every return closes the device.\<close>

lemma claim_and_stream_closes:
  assumes "claim_and_stream env dev desc s = Some (r, w')"
  shows "\<exists>w''. w' = emit UsbClose w''"
  using assms
  by (auto simp add: claim_and_stream_def Let_def split: prod.splits if_splits)

text \<open>A failed \<open>libusb_get_config_descriptor\<close> returns with the device open.\<close>

lemma failed_config_descriptor_leaks_handle:
  assumes desc: "get_device_descriptor dev = (0, desc)"
    and ident: "idVendor desc = VENDOR_ID_DJI" "idProduct desc = DEVICE_ID_GOGGLES"
    and opened: "libusb_open dev = 0"
    and configured: "configure dev (emit UsbOpen w) = Inr w1"
    and refused: "get_config_descriptor dev = (r, cdesc)" "r \<noteq> 0"
  shows "start_with_a_device env dev w = Some (r, emit (Printf ''get_config_descriptor failed'') w1)"
  using assms by (simp add: start_with_a_device_def)

subsection \<open>Concrete runs\<close>

lemma quiet_pass:
  "recv_and_discard quiet (accept_any_connection quiet initially) = Some (emit SysAccept initially)"
  by (simp add: recv_and_discard_def recv_and_discard_from.simps accept_any_connection_def
      quiet_def initially_def emit_def EAGAIN_def EWOULDBLOCK_def)

lemma three_clients_eq:
  "three_clients =
     \<lparr>clientlist = (\<lambda>_. 0)(0 := 4, 1 := 5, 2 := 6), clientlist_use = 3, buf = (\<lambda>_. 0),
      trace = [SysAccept, SysFcntl 4, Printf ''client'', SysAccept, SysFcntl 5, Printf ''client'',
               SysAccept, SysFcntl 6, Printf ''client'']\<rparr>"
  unfolding three_clients_def
  by (simp add: accept_any_connection_def emit_def Let_def initially_def quiet_def
      three_arrivals_def accepts_so_far_def EAGAIN_def EWOULDBLOCK_def SIZEOF_SOCKADDR_IN_def
      CLIENTLIST_LEN_def)

lemmas memory_defs =
  close_client_def memmove_def array_bytes_def bytes_array_def int_byte_def int_of_bytes_def

section \<open>The claims\<close>

subsection \<open>C1: removal from the registry\<close>

text \<open>
  C1. The registry is the entries \<open>0 .. clientlist_use - 1\<close>, so its indices have no
  gaps (\<open>length_registry\<close>); removing the entry at \<open>i\<close> is to shift every later entry
  down by one, keeping order and descriptors: \<open>registry\<close> after \<open>close_client i\<close> is to
  be \<open>removeAt i\<close> of the registry before.

  \<open>close_client\<close> does not do that. \<open>memmove\<close> is given \<open>clientlist_use - i\<close>, the
  number of entries to move, as its number of bytes, a quarter of what the entries take.
  Whenever the removed entry has two or more successors, the last slot of the shorter
  registry is not written at all: it keeps its old descriptor, and the descriptor of the
  old last entry is gone from the registry. If the two differ, the result is not the
  shifted registry.
\<close>

theorem close_client_drops_last:
  assumes "unat i + 2 < unat (clientlist_use w)"
    and "clientlist w (unat (clientlist_use w) - 2) \<noteq> clientlist w (unat (clientlist_use w) - 1)"
  shows "registry (close_client i w) \<noteq> removeAt (unat i) (registry w)"
proof
  let ?n = "unat (clientlist_use w)"
  assume eq: "registry (close_client i w) = removeAt (unat i) (registry w)"
  from assms(1) have use: "unat (clientlist_use w - 1) = ?n - 1"
    by unat_arith
  from assms(1) use have "registry (close_client i w) ! (?n - 2) =
      clientlist (close_client i w) (?n - 2)"
    by (simp add: registry_def)
  also have "\<dots> = clientlist w (?n - 2)"
    using assms(1) by (rule close_client_last_slot)
  finally have left: "registry (close_client i w) ! (?n - 2) = clientlist w (?n - 2)" .
  from assms(1) have "unat i \<le> ?n - 2" and "Suc (?n - 2) < length (registry w)"
    and "Suc (?n - 2) = ?n - 1"
    by (simp_all add: registry_def)
  then have "removeAt (unat i) (registry w) ! (?n - 2) = registry w ! (?n - 1)"
    using nth_removeAt [of "unat i" "?n - 2" "registry w"] by simp
  also from assms(1) have "\<dots> = clientlist w (?n - 1)"
    by (simp add: registry_def)
  finally have "removeAt (unat i) (registry w) ! (?n - 2) = clientlist w (?n - 1)" .
  with left eq assms(2) show False by simp
qed

text \<open>
  Three clients on the descriptors 4, 5, 6; the first is removed. The registry becomes
  5, 5: the client on 5 is there twice, the client on 6 is lost with its socket open.
\<close>

theorem close_client_drops_last_witness:
  "registry three_clients = [4, 5, 6]
   \<and> registry (close_client 0 three_clients) = [5, 5]
   \<and> removeAt 0 (registry three_clients) = [5, 6]
   \<and> registry (close_client 0 three_clients) \<noteq>
       removeAt (unat (0 :: 32 word)) (registry three_clients)"
proof -
  have a: "unat (0 :: 32 word) + 2 < unat (clientlist_use three_clients)"
    by (simp add: three_clients_eq)
  have b: "clientlist three_clients (unat (clientlist_use three_clients) - 2) \<noteq>
      clientlist three_clients (unat (clientlist_use three_clients) - 1)"
    by (simp add: three_clients_eq)
  have "registry three_clients = [4, 5, 6]"
    by (simp add: three_clients_eq registry_def upt_rec)
  moreover have "registry (close_client 0 three_clients) = [5, 5]"
    by (simp add: three_clients_eq registry_def upt_rec memory_defs emit_def Let_def)
  moreover have "removeAt 0 (registry three_clients) = [5, 6]"
    by (simp add: three_clients_eq registry_def upt_rec removeAt_def)
  moreover note close_client_drops_last [OF a b]
  ultimately show ?thesis by blast
qed

subsection \<open>C2: no matching device\<close>

text \<open>
  C2. A discovery pass that finds no device of the target identity, the pass over an
  empty device list included, is to print the prompt, sleep and try again; the process
  never ends with status 0 by itself.

  For a device list that is not empty this is \<open>no_match_waits\<close>, and where no
  list is empty the process never returns 0 (\<open>start_usb2sock_never_zero\<close>). For the empty list
  it fails: \<open>r\<close> is still the 0 it was set to before the inner loop, the test
  \<open>r == 0\<close> that is meant for a device pass that returned 0 ends the outer loop, and
  \<open>start_usb2sock\<close> returns 0 without a prompt.
\<close>

theorem empty_device_list_exits:
  assumes init: "0 \<le> libusb_init_context env" "0 \<le> sys_socket env"
      "sys_setsockopt_reuseaddr env = 0" "sys_setsockopt_nosigpipe env = 0"
      "sys_bind env = 0" "sys_listen env = 0" "sys_fcntl_listener env = 0"
    and drained: "recv_and_discard env (accept_any_connection env w) = Some w1"
    and empty: "get_device_list env (trace w1) = Devices []"
  shows "start_usb2sock env w = Some (0, emit UsbExit (emit UsbGetDeviceList w1))"
proof -
  have "try_devices env [] 0 (emit UsbGetDeviceList w1) = Some (0, emit UsbGetDeviceList w1)"
    by simp
  from start_usb2sock_loop_pass [OF drained empty this]
  have "start_usb2sock_loop env w = Some (0, emit UsbGetDeviceList w1)"
    by simp
  with init show ?thesis
    by (simp add: start_usb2sock_def)
qed

theorem empty_device_list_exits_witness:
  "start_usb2sock quiet initially =
     Some (0, initially\<lparr>trace := [SysAccept, UsbGetDeviceList, UsbExit]\<rparr>)"
proof -
  have init: "0 \<le> libusb_init_context quiet" "0 \<le> sys_socket quiet"
      "sys_setsockopt_reuseaddr quiet = 0" "sys_setsockopt_nosigpipe quiet = 0"
      "sys_bind quiet = 0" "sys_listen quiet = 0" "sys_fcntl_listener quiet = 0"
    by (simp_all add: quiet_def)
  have empty: "get_device_list quiet (trace (emit SysAccept initially)) = Devices []"
    by (simp add: quiet_def)
  from empty_device_list_exits [OF init quiet_pass empty]
  show ?thesis
    by (simp add: emit_def initially_def)
qed

subsection \<open>C3: every client socket is closed once\<close>

text \<open>
  C3. A client socket is to be closed exactly once, when it leaves the registry; no
  accepted connection is closed and then registered, or closed twice.

  When \<open>fcntl(clientfd, F_SETFL, O_NONBLOCK)\<close> fails, \<open>accept_any_connection\<close> closes
  the descriptor and, with no \<open>return\<close> (the branch for a full registry just above has
  one), goes on to register it: the descriptor is closed and in the registry.
\<close>

theorem failed_nonblock_closed_and_registered:
  assumes accepted: "sys_accept env (trace w) = Accepted clientfd True SIZEOF_SOCKADDR_IN"
    and room: "unat (clientlist_use w) < CLIENTLIST_LEN"
    and failed: "sys_fcntl env (trace w @ [SysAccept]) clientfd \<noteq> 0"
  shows "closes_of (trace (accept_any_connection env w)) = closes_of (trace w) @ [clientfd]
         \<and> registry (accept_any_connection env w) = registry w @ [clientfd]"
proof -
  from room have "unat (clientlist_use w) + unat (1 :: 32 word) < 2 ^ LENGTH(32)"
    by (simp add: CLIENTLIST_LEN_def)
  then have "unat (clientlist_use w + 1) = unat (clientlist_use w) + unat (1 :: 32 word)"
    by (rule unat_add_lem [THEN iffD1])
  then have inc: "unat (clientlist_use w + 1) = Suc (unat (clientlist_use w))"
    by simp
  from accepted room failed
  have w': "accept_any_connection env w =
      w\<lparr>trace := trace w @ [SysAccept, SysFcntl clientfd, Printf ''O_NONBLOCK client failed'',
            SysClose clientfd, Printf ''client''],
        clientlist := (clientlist w)(unat (clientlist_use w) := clientfd),
        clientlist_use := clientlist_use w + 1\<rparr>"
    by (simp add: accept_any_connection_def emit_def Let_def)
  have "closes_of (trace (accept_any_connection env w)) = closes_of (trace w) @ [clientfd]"
    by (simp add: w')
  moreover have "registry (accept_any_connection env w) = registry w @ [clientfd]"
    by (simp add: w' registry_def inc)
  ultimately show ?thesis by blast
qed

text \<open>
  One client on descriptor 4, \<open>fcntl\<close> fails: 4 is closed and registered. The next
  drain reads it, gets \<open>EBADF\<close>, and closes it a second time.
\<close>

theorem failed_nonblock_closed_and_registered_witness:
  "closes_of (trace (accept_any_connection nonblock_fails initially)) = [4]
   \<and> registry (accept_any_connection nonblock_fails initially) = [4]
   \<and> map_option (\<lambda>w. closes_of (trace w))
        (recv_and_discard nonblock_fails (accept_any_connection nonblock_fails initially)) =
       Some [4, 4]"
proof -
  have a: "sys_accept nonblock_fails (trace initially) = Accepted 4 True SIZEOF_SOCKADDR_IN"
    by (simp add: nonblock_fails_def quiet_def initially_def accepts_so_far_def
        SIZEOF_SOCKADDR_IN_def)
  have b: "unat (clientlist_use initially) < CLIENTLIST_LEN"
    by (simp add: initially_def CLIENTLIST_LEN_def)
  have c: "sys_fcntl nonblock_fails (trace initially @ [SysAccept]) 4 \<noteq> 0"
    by (simp add: nonblock_fails_def quiet_def)
  have d: "closes_of (trace initially) = []" "registry initially = []"
    by (simp_all add: initially_def registry_def)
  have e: "map_option (\<lambda>w. closes_of (trace w))
        (recv_and_discard nonblock_fails (accept_any_connection nonblock_fails initially)) =
       Some [4, 4]"
    by (simp add: recv_and_discard_def recv_and_discard_from.simps accept_any_connection_def
        nonblock_fails_def quiet_def initially_def accepts_so_far_def emit_def Let_def
        EAGAIN_def EWOULDBLOCK_def SIZEOF_SOCKADDR_IN_def CLIENTLIST_LEN_def close_client_def)
  from failed_nonblock_closed_and_registered [OF a b c] d e
  show ?thesis by simp
qed

subsection \<open>C4: the device handle is closed on every return\<close>

text \<open>
  C4. Once \<open>libusb_open\<close> has succeeded, every return of \<open>start_with_a_device\<close> is
  to close the device first.

  The returns after \<open>libusb_claim_interface\<close> do (\<open>claim_and_stream_closes\<close>). The two
  returns before it do not: when \<open>libusb_set_configuration\<close> fails (here), and when
  \<open>libusb_get_config_descriptor\<close> fails (\<open>failed_config_descriptor_leaks_handle\<close>),
  the function returns the error with the device still open.
\<close>

theorem failed_configuration_leaks_handle:
  assumes desc: "get_device_descriptor dev = (0, desc)"
    and ident: "idVendor desc = VENDOR_ID_DJI" "idProduct desc = DEVICE_ID_GOGGLES"
    and opened: "libusb_open dev = 0"
    and unconfigured: "get_configuration dev = (0, 0)"
    and refused: "set_configuration dev = r" "r \<noteq> 0"
  shows "start_with_a_device env dev w =
           Some (r, w\<lparr>trace := trace w @ [UsbOpen, Printf ''need to set cfg'',
                   UsbSetConfiguration GOGGLES_WANT_CFG, Printf ''set_configuration failed'']\<rparr>)"
  using assms by (simp add: start_with_a_device_def configure_def emit_def)

theorem failed_configuration_leaks_handle_witness:
  "start_with_a_device quiet unconfigurable initially =
     Some (- 1, initially\<lparr>trace := [UsbOpen, Printf ''need to set cfg'',
                   UsbSetConfiguration 1, Printf ''set_configuration failed'']\<rparr>)
   \<and> UsbClose \<notin> set [UsbOpen, Printf ''need to set cfg'',
                   UsbSetConfiguration 1, Printf ''set_configuration failed'']"
proof -
  have 1: "get_device_descriptor unconfigurable =
      (0, \<lparr>idVendor = 0x2ca3, idProduct = 0x001f, bNumConfigurations = 1\<rparr>)"
    by (simp add: unconfigurable_def goggles_def)
  have 2: "idVendor \<lparr>idVendor = 0x2ca3, idProduct = 0x001f, bNumConfigurations = 1\<rparr> =
      VENDOR_ID_DJI"
    by (simp add: VENDOR_ID_DJI_def)
  have 3: "idProduct \<lparr>idVendor = 0x2ca3, idProduct = 0x001f, bNumConfigurations = 1\<rparr> =
      DEVICE_ID_GOGGLES"
    by (simp add: DEVICE_ID_GOGGLES_def)
  have 4: "libusb_open unconfigurable = 0"
    by (simp add: unconfigurable_def goggles_def)
  have 5: "get_configuration unconfigurable = (0, 0)"
    by (simp add: unconfigurable_def)
  have 6: "set_configuration unconfigurable = - 1"
    by (simp add: unconfigurable_def)
  have 7: "(- 1 :: int) \<noteq> 0" by simp
  from failed_configuration_leaks_handle [OF 1 2 3 4 5 6 7, of quiet initially]
  show ?thesis
    by (simp add: initially_def GOGGLES_WANT_CFG_def)
qed

subsection \<open>C5: the broadcast\<close>

text \<open>
  C5. In a broadcast of \<open>buflen\<close> bytes every peer is to receive a prefix of the buffer:
  a partial write goes on at the same peer from the new offset, "would block" drops the
  rest for that peer and moves on (\<open>slow_peer_keeps_prefix\<close>), another error removes
  the peer and moves on (\<open>failed_peer_is_closed\<close>).

  The removal is \<open>close_client\<close>, which leaves a wrong registry behind. With
  three clients on 4, 5, 6 and a write error on 4, the loop goes on over the registry
  5, 5: the client on 5 is sent the two bytes of the buffer twice, which is no prefix of
  the buffer, and the client on 6 is sent nothing.
\<close>

theorem broadcast_after_removal_failing:
  "registry three_clients = [4, 5, 6]
   \<and> (\<lambda>w. (received 5 (trace w), received 6 (trace w), closes_of (trace w), registry w))
       (send_to_socket first_write_fails 2
          (three_clients\<lparr>buf := (\<lambda>_. 0)(0 := 0x41, 1 := 0x42)\<rparr>))
     = ([0x41, 0x42, 0x41, 0x42], [], [4], [5, 5])"
proof -
  have "registry three_clients = [4, 5, 6]"
    by (simp add: three_clients_eq registry_def upt_rec)
  moreover have
    "(\<lambda>w. (received 5 (trace w), received 6 (trace w), closes_of (trace w), registry w))
       (send_to_socket first_write_fails 2
          (three_clients\<lparr>buf := (\<lambda>_. 0)(0 := 0x41, 1 := 0x42)\<rparr>))
     = ([0x41, 0x42, 0x41, 0x42], [], [4], [5, 5])"
    by (simp add: three_clients_eq send_to_socket_def send_to_socket_from.simps
        first_write_fails_def quiet_def EAGAIN_def EWOULDBLOCK_def emit_def Let_def
        memory_defs received_def registry_def upt_rec)
  ultimately show ?thesis by blast
qed

subsection \<open>C6: the drain\<close>

text \<open>
  C6. A call of \<open>recv_and_discard\<close> is to visit every registered peer exactly once,
  whatever is removed on the way: "would block" moves on, a read of length 0 or an error
  removes the peer, no peer is skipped or visited again.

  With no removal this holds (\<open>drain_idle_once\<close>). With three clients on 4, 5, 6, of
  which the one on 4 has closed its end, the removal leaves the registry 5, 5: the
  descriptor 5 is read twice and 6 is not read.
\<close>

theorem drain_after_removal_failing:
  "registry three_clients = [4, 5, 6]
   \<and> map_option (\<lambda>w. (reads_of (trace w), closes_of (trace w), registry w))
        (recv_and_discard first_hangs_up three_clients) = Some ([4, 5, 5], [4], [5, 5])"
proof -
  have "registry three_clients = [4, 5, 6]"
    by (simp add: three_clients_eq registry_def upt_rec)
  moreover have "map_option (\<lambda>w. (reads_of (trace w), closes_of (trace w), registry w))
        (recv_and_discard first_hangs_up three_clients) = Some ([4, 5, 5], [4], [5, 5])"
    by (simp add: three_clients_eq recv_and_discard_def recv_and_discard_from.simps
        first_hangs_up_def quiet_def EAGAIN_def EWOULDBLOCK_def emit_def Let_def memory_defs
        reads_of_def registry_def upt_rec)
  ultimately show ?thesis by blast
qed

subsection \<open>C7: what the streaming loop makes of a bulk read\<close>

text \<open>
  C7. In a pass of the streaming loop the bulk read is classified: a timeout with no byte
  prints the status, sleeps, resets the packet counter and goes on, removing no peer
  (\<open>classify_rx_no_signal\<close>); an I/O error, "no device" or "not found" returns
  \<open>WAIT_FOR_HOTPLUG\<close> (\<open>classify_rx_gone\<close>); any other result but 0 is returned
  as it is (\<open>classify_rx_other\<close>); and 0 prints the status, broadcasts the bytes
  received to all peers and goes on.

  The last part fails where the broadcast removes a peer. Three clients are registered on
  4, 5 and 6; the goggles deliver the two bytes \<open>0x41 0x42\<close>; the write to 4 fails with
  \<open>EPIPE\<close> (32). The pass takes the branch for 0 and calls \<open>send_to_socket\<close>, whose
  removal of 4 leaves the registry 5, 5. The client on 5 is sent the two bytes twice and
  the client on 6, registered when the bytes were read, is sent none of them. The next
  pass finds the goggles gone and returns \<open>WAIT_FOR_HOTPLUG\<close>. What the program did
  from the call of the loop on is the list of the third conjunct.
\<close>

theorem stream_pass_broadcast_failing:
  "registry three_clients = [4, 5, 6]
   \<and> map_option (\<lambda>(r, w). (r, received 4 (trace w), received 5 (trace w), received 6 (trace w),
                     closes_of (trace w), registry w))
       (start_stream_loop first_write_fails two_bytes_then_gone 0x84 0 three_clients)
     = Some (WAIT_FOR_HOTPLUG, [], [0x41, 0x42, 0x41, 0x42], [], [4], [5, 5])
   \<and> map_option (\<lambda>(r, w). drop (length (trace three_clients)) (trace w))
       (start_stream_loop first_write_fails two_bytes_then_gone 0x84 0 three_clients)
     = Some [SysAccept, SysRead 4, SysRead 5, SysRead 6, UsbBulkIn 0x84, Printf ''video packet'',
             SysWrite 4 [], SysClose 4, SysWrite 5 [0x41, 0x42], SysWrite 5 [0x41, 0x42],
             SysAccept, SysRead 5, SysRead 5, UsbBulkIn 0x84, Printf '' wait:no dev'']"
proof -
  have "registry three_clients = [4, 5, 6]"
    by (simp add: three_clients_eq registry_def upt_rec)
  moreover have run: "map_option (\<lambda>(r, w). (r, trace w, registry w))
       (start_stream_loop first_write_fails two_bytes_then_gone 0x84 0 three_clients)
     = Some (WAIT_FOR_HOTPLUG,
         trace three_clients @
           [SysAccept, SysRead 4, SysRead 5, SysRead 6, UsbBulkIn 0x84, Printf ''video packet'',
            SysWrite 4 [], SysClose 4, SysWrite 5 [0x41, 0x42], SysWrite 5 [0x41, 0x42],
            SysAccept, SysRead 5, SysRead 5, UsbBulkIn 0x84, Printf '' wait:no dev''],
         [5, 5])"
    by (simp add: three_clients_eq start_stream_loop.simps recv_and_discard_def
        recv_and_discard_from.simps accept_any_connection_def bulk_read_def classify_rx_def
        send_to_socket_def send_to_socket_from.simps first_write_fails_def quiet_def
        two_bytes_then_gone_def goggles_def to_unsigned_char_def
        LIBUSB_ERROR_IO_def LIBUSB_ERROR_NO_DEVICE_def LIBUSB_ERROR_NOT_FOUND_def
        LIBUSB_ERROR_TIMEOUT_def EAGAIN_def EWOULDBLOCK_def emit_def Let_def memory_defs
        registry_def upt_rec)
  moreover have "trace three_clients =
      [SysAccept, SysFcntl 4, Printf ''client'', SysAccept, SysFcntl 5, Printf ''client'',
       SysAccept, SysFcntl 6, Printf ''client'']"
    by (simp add: three_clients_eq)
  ultimately show ?thesis
    by (auto simp add: received_def closes_of_def)
qed

subsection \<open>C8: the handshake\<close>

text \<open>
  C8. The send of the four bytes of the magic packet ends in one of three ways: a timeout
  with no byte sent counts as success, and \<open>start_stream\<close> is its receive loop from the
  first pass; an I/O error returns \<open>WAIT_FOR_HOTPLUG\<close> at once; any other result but 0
  is returned as it is, and a send that reports success with other than four bytes
  returns \<open>LIBUSB_ERROR_TIMEOUT\<close>, both fatal for the supervisor (the former when it is
  one of libusb's negative error codes). A full send enters the receive loop as well.
\<close>

theorem handshake_classified:
  assumes sent: "bulk_out usbdev (to_unsigned_char outEndpoint) = (r, success)"
  shows
    "(r = LIBUSB_ERROR_TIMEOUT \<and> success = 0 \<longrightarrow>
        start_stream env usbdev inEndpoint outEndpoint w =
          start_stream_loop env usbdev inEndpoint 0 (emit (UsbBulkOut (to_unsigned_char outEndpoint)) w)) \<and>
     (r = LIBUSB_ERROR_IO \<longrightarrow>
        start_stream env usbdev inEndpoint outEndpoint w =
          Some (WAIT_FOR_HOTPLUG, emit (Printf '' send:io'') (emit (UsbBulkOut (to_unsigned_char outEndpoint)) w))) \<and>
     (r \<noteq> 0 \<and> r \<noteq> LIBUSB_ERROR_IO \<and> \<not> (r = LIBUSB_ERROR_TIMEOUT \<and> success = 0) \<longrightarrow>
        start_stream env usbdev inEndpoint outEndpoint w =
          Some (r, emit (Printf ''send(magic): sent'') (emit (UsbBulkOut (to_unsigned_char outEndpoint)) w))
        \<and> (r < 0 \<longrightarrow> fatal r)) \<and>
     (r = 0 \<and> success \<noteq> 4 \<longrightarrow>
        start_stream env usbdev inEndpoint outEndpoint w =
          Some (LIBUSB_ERROR_TIMEOUT,
                emit (Printf ''send(magic): sent want'') (emit (UsbBulkOut (to_unsigned_char outEndpoint)) w))
        \<and> fatal LIBUSB_ERROR_TIMEOUT) \<and>
     (r = 0 \<and> success = 4 \<longrightarrow>
        start_stream env usbdev inEndpoint outEndpoint w =
          start_stream_loop env usbdev inEndpoint 0 (emit (UsbBulkOut (to_unsigned_char outEndpoint)) w))"
proof -
  have "fatal LIBUSB_ERROR_TIMEOUT"
    by (rule libusb_errors_fatal) (simp add: LIBUSB_ERROR_TIMEOUT_def)
  with sent show ?thesis
    by (auto simp add: start_stream_def send_magic_def libusb_errors_fatal
        LIBUSB_ERROR_IO_def LIBUSB_ERROR_TIMEOUT_def)
qed

theorem handshake_classified_witness:
  "start_stream quiet (goggles\<lparr>bulk_out := \<lambda>ep. (LIBUSB_ERROR_TIMEOUT, 0)\<rparr>) 0x84 0x03 initially =
     start_stream_loop quiet (goggles\<lparr>bulk_out := \<lambda>ep. (LIBUSB_ERROR_TIMEOUT, 0)\<rparr>) 0x84 0
       (emit (UsbBulkOut 0x03) initially)
   \<and> start_stream quiet (goggles\<lparr>bulk_out := \<lambda>ep. (LIBUSB_ERROR_IO, 0)\<rparr>) 0x84 0x03 initially =
       Some (WAIT_FOR_HOTPLUG, emit (Printf '' send:io'') (emit (UsbBulkOut 0x03) initially))
   \<and> start_stream quiet (goggles\<lparr>bulk_out := \<lambda>ep. (- 9, 0)\<rparr>) 0x84 0x03 initially =
       Some (- 9, emit (Printf ''send(magic): sent'') (emit (UsbBulkOut 0x03) initially))
   \<and> fatal (- 9)
   \<and> start_stream quiet (goggles\<lparr>bulk_out := \<lambda>ep. (0, 2)\<rparr>) 0x84 0x03 initially =
       Some (LIBUSB_ERROR_TIMEOUT,
             emit (Printf ''send(magic): sent want'') (emit (UsbBulkOut 0x03) initially))
   \<and> fatal LIBUSB_ERROR_TIMEOUT
   \<and> start_stream quiet goggles 0x84 0x03 initially =
       start_stream_loop quiet goggles 0x84 0 (emit (UsbBulkOut 0x03) initially)"
proof -
  have a: "bulk_out (goggles\<lparr>bulk_out := \<lambda>ep. (LIBUSB_ERROR_TIMEOUT, 0)\<rparr>) (to_unsigned_char 0x03) =
      (LIBUSB_ERROR_TIMEOUT, 0)"
    and b: "bulk_out (goggles\<lparr>bulk_out := \<lambda>ep. (LIBUSB_ERROR_IO, 0)\<rparr>) (to_unsigned_char 0x03) = (LIBUSB_ERROR_IO, 0)"
    and c: "bulk_out (goggles\<lparr>bulk_out := \<lambda>ep. (- 9, 0)\<rparr>) (to_unsigned_char 0x03) = (- 9, 0)"
    and d: "bulk_out (goggles\<lparr>bulk_out := \<lambda>ep. (0, 2)\<rparr>) (to_unsigned_char 0x03) = (0, 2)"
    and e: "bulk_out goggles (to_unsigned_char 0x03) = (0, 4)"
    by (simp_all add: goggles_def)
  from handshake_classified [OF a, of quiet "0x84" initially]
    handshake_classified [OF b, of quiet "0x84" initially]
    handshake_classified [OF c, of quiet "0x84" initially]
    handshake_classified [OF d, of quiet "0x84" initially]
    handshake_classified [OF e, of quiet "0x84" initially]
  show ?thesis
    by (simp add: LIBUSB_ERROR_IO_def LIBUSB_ERROR_TIMEOUT_def to_unsigned_char_def)
qed

subsection \<open>C9: a timeout that transferred bytes\<close>

text \<open>
  C9. A bulk read that times out after it has transferred some bytes ends the streaming
  loop with the timeout code: the code is fatal for the supervisor (it is not
  \<open>WAIT_FOR_HOTPLUG\<close>, and not 0), and after the bulk read the loop prints and
  returns; it writes to no socket, so the bytes reach no peer.
\<close>

theorem timeout_with_bytes_is_fatal:
  assumes drained: "recv_and_discard env (accept_any_connection env w) = Some w1"
    and rx: "bulk_read usbdev inEndpoint w1 = ((LIBUSB_ERROR_TIMEOUT, success), w2)"
    and bytes: "success \<noteq> 0"
  shows "start_stream_loop env usbdev inEndpoint count w =
           Some (LIBUSB_ERROR_TIMEOUT, emit (Printf ''rx: got'') w2)
         \<and> fatal LIBUSB_ERROR_TIMEOUT
         \<and> LIBUSB_ERROR_TIMEOUT \<noteq> WAIT_FOR_HOTPLUG
         \<and> trace (emit (Printf ''rx: got'') w2) =
             trace w1 @ [UsbBulkIn (to_unsigned_char inEndpoint), Printf ''rx: got'']
         \<and> writes_of (trace (emit (Printf ''rx: got'') w2)) = writes_of (trace w1)"
proof -
  note pass = start_stream_loop_pass [OF drained rx]
  note w2 = bulk_read_world [OF rx]
  from bytes have "classify_rx env LIBUSB_ERROR_TIMEOUT success count w2 =
      Return LIBUSB_ERROR_TIMEOUT (emit (Printf ''rx: got'') w2)"
    by (simp add: classify_rx_def LIBUSB_ERROR_IO_def LIBUSB_ERROR_NO_DEVICE_def
        LIBUSB_ERROR_NOT_FOUND_def LIBUSB_ERROR_TIMEOUT_def)
  with pass have "start_stream_loop env usbdev inEndpoint count w =
           Some (LIBUSB_ERROR_TIMEOUT, emit (Printf ''rx: got'') w2)"
    by simp
  moreover have "fatal LIBUSB_ERROR_TIMEOUT"
    by (rule libusb_errors_fatal) (simp add: LIBUSB_ERROR_TIMEOUT_def)
  moreover have "LIBUSB_ERROR_TIMEOUT \<noteq> WAIT_FOR_HOTPLUG"
    by (simp add: LIBUSB_ERROR_TIMEOUT_def WAIT_FOR_HOTPLUG_def)
  moreover have "trace (emit (Printf ''rx: got'') w2) =
      trace w1 @ [UsbBulkIn (to_unsigned_char inEndpoint), Printf ''rx: got'']"
    by (simp add: w2)
  moreover have "writes_of (trace (emit (Printf ''rx: got'') w2)) = writes_of (trace w1)"
    by (simp add: w2 writes_of_def)
  ultimately show ?thesis by blast
qed

theorem timeout_with_bytes_is_fatal_witness:
  "start_stream_loop quiet (goggles\<lparr>bulk_in := \<lambda>tr ep. (LIBUSB_ERROR_TIMEOUT, [0x41])\<rparr>)
       0x84 7 initially =
     Some (LIBUSB_ERROR_TIMEOUT, emit (Printf ''rx: got'')
       (snd (bulk_read (goggles\<lparr>bulk_in := \<lambda>tr ep. (LIBUSB_ERROR_TIMEOUT, [0x41])\<rparr>) 0x84
               (emit SysAccept initially))))
   \<and> fatal LIBUSB_ERROR_TIMEOUT
   \<and> trace (emit (Printf ''rx: got'')
       (snd (bulk_read (goggles\<lparr>bulk_in := \<lambda>tr ep. (LIBUSB_ERROR_TIMEOUT, [0x41])\<rparr>) 0x84
               (emit SysAccept initially)))) = [SysAccept, UsbBulkIn 0x84, Printf ''rx: got'']
   \<and> writes_of (trace (emit (Printf ''rx: got'')
       (snd (bulk_read (goggles\<lparr>bulk_in := \<lambda>tr ep. (LIBUSB_ERROR_TIMEOUT, [0x41])\<rparr>) 0x84
               (emit SysAccept initially))))) = []"
proof -
  have a: "bulk_read (goggles\<lparr>bulk_in := \<lambda>tr ep. (LIBUSB_ERROR_TIMEOUT, [0x41])\<rparr>) 0x84
        (emit SysAccept initially) =
      ((LIBUSB_ERROR_TIMEOUT, 1),
       snd (bulk_read (goggles\<lparr>bulk_in := \<lambda>tr ep. (LIBUSB_ERROR_TIMEOUT, [0x41])\<rparr>) 0x84
               (emit SysAccept initially)))"
    by (subst bulk_read_snd) simp
  have b: "(1::int) \<noteq> 0" by simp
  from timeout_with_bytes_is_fatal [OF quiet_pass a b, of 7]
  show ?thesis
    by (simp add: initially_def writes_of_def to_unsigned_char_def)
qed

subsection \<open>C10: no streaming interface\<close>



end
